theory Spec2Isabelle
  imports Main "HOL-Library.Char_ord" "HOL-Library.List_Lexorder" "HOL-Library.Sublist"
begin

section \<open>Strings\<close>

text \<open>
  Python strings are modelled as \<open>string\<close>: a list of characters, each a code point
  below 256, compared by code point, lexicographically (the order \<open>str.__lt__\<close> uses).
  On these code points \<open>str.lower\<close> maps the letters A to Z (65 to 90) and the accented
  capitals 192 to 222, the multiplication sign 215 apart, to the code point 32 above, and
  leaves every other character as it is.
\<close>

definition lower_char :: "char \<Rightarrow> char" where
  "lower_char c =
     (let n = (of_char c :: nat)
      in if (65 \<le> n \<and> n \<le> 90) \<or> (192 \<le> n \<and> n \<le> 222 \<and> n \<noteq> 215)
         then char_of (n + 32) else c)"

definition lower :: "string \<Rightarrow> string" where
  "lower s = map lower_char s"

text \<open>\<open>str(n)\<close> for an integer: decimal digits, with a minus sign for negative numbers.\<close>

fun digits :: "nat \<Rightarrow> string" where
  "digits n =
     (if n < 10 then [char_of (48 + n)] else digits (n div 10) @ [char_of (48 + n mod 10)])"

definition str_int :: "int \<Rightarrow> string" where
  "str_int i = (if i < 0 then CHR ''-'' # digits (nat (- i)) else digits (nat i))"

text \<open>\<open>q in k\<close> on strings: \<open>q\<close> occurs in \<open>k\<close> as a contiguous run.\<close>

fun contains :: "string \<Rightarrow> string \<Rightarrow> bool" where
  "contains q [] = (q = [])"
| "contains q (c # cs) = (prefix q (c # cs) \<or> contains q cs)"

text \<open>\<open>base.replace("_", " ")\<close>.\<close>

definition replace_underscore :: "string \<Rightarrow> string" where
  "replace_underscore s = map (\<lambda>c. if c = CHR ''_'' then CHR '' '' else c) s"

text \<open>
  \<open>os.path.splitext(fname)[0]\<close> for a file name without directory separator: the part
  before the last dot, unless everything before that dot is dots (or there is no dot), in
  which case the whole name is the base.
\<close>

definition splitext_base :: "string \<Rightarrow> string" where
  "splitext_base fname =
     (let pre = rev (drop 1 (dropWhile (\<lambda>c. c \<noteq> CHR ''.'') (rev fname)))
      in if CHR ''.'' \<in> set fname \<and> (\<exists>c \<in> set pre. c \<noteq> CHR ''.'') then pre else fname)"

section \<open>Songs and the object store\<close>

text \<open>
  \<open>models.Song\<close>.  A \<open>Song\<close> is a mutable object shared by every container that holds
  it, so containers hold references and the objects live in a store.  Objects are never
  freed; \<open>next_ref\<close> of the manager is the next free address.
\<close>

type_synonym ref = nat

record song =
  song_id :: int
  title :: string
  artist :: string
  album :: string
  genre :: string
  year :: int
  duration_seconds :: int
  file_path :: string
  play_count :: int
  is_favorite :: bool

type_synonym store = "ref \<Rightarrow> song"

section \<open>Singly and doubly linked lists, stack, queue\<close>

text \<open>
  The node chains of \<open>SinglyLinkedList\<close>, \<open>DoublyLinkedList\<close>, \<open>Stack\<close> and
  \<open>Queue\<close> are the lists that their \<open>to_list\<close> returns.  \<open>remove\<close> unlinks the first
  node whose data satisfies the predicate; its Boolean result is dropped by every caller.
\<close>

fun remove_first :: "('a \<Rightarrow> bool) \<Rightarrow> 'a list \<Rightarrow> 'a list" where
  "remove_first p [] = []"
| "remove_first p (x # xs) = (if p x then xs else x # remove_first p xs)"

definition sll_append :: "'a list \<Rightarrow> 'a \<Rightarrow> 'a list" where
  "sll_append xs x = xs @ [x]"

definition sll_remove :: "('a \<Rightarrow> bool) \<Rightarrow> 'a list \<Rightarrow> 'a list" where
  "sll_remove p xs = remove_first p xs"

definition dll_append :: "'a list \<Rightarrow> 'a \<Rightarrow> 'a list" where
  "dll_append xs x = xs @ [x]"

definition dll_remove :: "('a \<Rightarrow> bool) \<Rightarrow> 'a list \<Rightarrow> 'a list" where
  "dll_remove p xs = remove_first p xs"

text \<open>The stack's list starts at the top.\<close>

definition stack_push :: "'a list \<Rightarrow> 'a \<Rightarrow> 'a list" where
  "stack_push stk x = x # stk"


definition queue_enqueue :: "'a list \<Rightarrow> 'a \<Rightarrow> 'a list" where
  "queue_enqueue q x = q @ [x]"

definition queue_dequeue :: "'a list \<Rightarrow> 'a option \<times> 'a list" where
  "queue_dequeue q = (case q of [] \<Rightarrow> (None, []) | x # rest \<Rightarrow> (Some x, rest))"

section \<open>Playlist\<close>

text \<open>
  \<open>models.Playlist\<close>: a doubly linked list of songs.  \<open>next_of\<close> and \<open>prev_of\<close> scan to
  the first node with the given id and follow one link from there.
\<close>

definition playlist_add :: "ref list \<Rightarrow> ref \<Rightarrow> ref list" where
  "playlist_add pl r = dll_append pl r"

definition remove_by_id :: "store \<Rightarrow> int \<Rightarrow> ref list \<Rightarrow> ref list" where
  "remove_by_id h sid pl = dll_remove (\<lambda>r. song_id (h r) = sid) pl"

fun next_of :: "store \<Rightarrow> ref list \<Rightarrow> int \<Rightarrow> ref option" where
  "next_of h [] sid = None"
| "next_of h (x # xs) sid =
     (if song_id (h x) = sid then (case xs of [] \<Rightarrow> None | y # _ \<Rightarrow> Some y)
      else next_of h xs sid)"



section \<open>Multi linked list by genre\<close>

text \<open>
  \<open>GenreMultiList\<close>: the chain of genre headers, newest first, each with its chain of
  songs, newest first.  \<open>_find_genre\<close> returns the first header whose name matches
  case-insensitively.
\<close>

type_synonym genre_list = "(string \<times> ref list) list"

fun find_genre :: "genre_list \<Rightarrow> string \<Rightarrow> (string \<times> ref list) option" where
  "find_genre [] g = None"
| "find_genre ((n, l) # gs) g = (if lower n = lower g then Some (n, l) else find_genre gs g)"

text \<open>Assignment to \<open>header.first_song\<close> of the header that \<open>_find_genre\<close> returns.\<close>

fun set_first_song :: "genre_list \<Rightarrow> string \<Rightarrow> (ref list \<Rightarrow> ref list) \<Rightarrow> genre_list" where
  "set_first_song [] g f = []"
| "set_first_song ((n, l) # gs) g f =
     (if lower n = lower g then (n, f l) # gs else (n, l) # set_first_song gs g f)"

definition genre_add_song :: "genre_list \<Rightarrow> string \<Rightarrow> ref \<Rightarrow> genre_list" where
  "genre_add_song gs g r =
     (case find_genre gs g of
        None \<Rightarrow> (g, [r]) # gs
      | Some _ \<Rightarrow> set_first_song gs g (\<lambda>l. r # l))"

definition genre_remove_song :: "genre_list \<Rightarrow> string \<Rightarrow> (ref \<Rightarrow> bool) \<Rightarrow> genre_list" where
  "genre_remove_song gs g p =
     (case find_genre gs g of
        None \<Rightarrow> gs
      | Some _ \<Rightarrow> set_first_song gs g (remove_first p))"

definition get_genres :: "genre_list \<Rightarrow> string list" where
  "get_genres gs = sort_key lower (map fst gs)"

definition get_songs :: "genre_list \<Rightarrow> string \<Rightarrow> ref list" where
  "get_songs gs g = (case find_genre gs g of None \<Rightarrow> [] | Some (n, l) \<Rightarrow> l)"

section \<open>Binary search tree by title\<close>

datatype bst = Leaf | Node string ref bst bst

fun bst_insert_node :: "bst \<Rightarrow> string \<Rightarrow> ref \<Rightarrow> bst" where
  "bst_insert_node Leaf k v = Node k v Leaf Leaf"
| "bst_insert_node (Node nk nv l r) k v =
     (if k < nk then Node nk nv (bst_insert_node l k v) r
      else if k > nk then Node nk nv l (bst_insert_node r k v)
      else Node nk v l r)"

definition bst_insert :: "bst \<Rightarrow> string \<Rightarrow> ref \<Rightarrow> bst" where
  "bst_insert t k v = bst_insert_node t (lower k) v"

fun bst_search_node :: "bst \<Rightarrow> string \<Rightarrow> ref option" where
  "bst_search_node Leaf k = None"
| "bst_search_node (Node nk nv l r) k =
     (if k < nk then bst_search_node l k
      else if k > nk then bst_search_node r k
      else Some nv)"

definition bst_search :: "bst \<Rightarrow> string \<Rightarrow> ref option" where
  "bst_search t k = bst_search_node t (lower k)"

fun traverse :: "string \<Rightarrow> bst \<Rightarrow> ref list" where
  "traverse q Leaf = []"
| "traverse q (Node nk nv l r) =
     (if contains q nk then [nv] else []) @ traverse q l @ traverse q r"

definition partial_match :: "bst \<Rightarrow> string \<Rightarrow> ref list" where
  "partial_match t query = traverse (lower query) t"

text \<open>
  The search-tree ordering that \<open>_insert\<close> maintains and \<open>search\<close> relies on: the
  keys of the left subtree are below the key of the node, those of the right subtree above.
\<close>

fun bst_keys :: "bst \<Rightarrow> string set" where
  "bst_keys Leaf = {}"
| "bst_keys (Node k v l r) = insert k (bst_keys l \<union> bst_keys r)"

fun bst_ok :: "bst \<Rightarrow> bool" where
  "bst_ok Leaf = True"
| "bst_ok (Node k v l r) =
     (bst_ok l \<and> bst_ok r \<and> (\<forall>x \<in> bst_keys l. x < k) \<and> (\<forall>x \<in> bst_keys r. k < x))"

section \<open>Similarity graph\<close>

text \<open>\<open>SongGraph.adj\<close>: a dictionary from song id to the list of neighbour ids.\<close>

type_synonym graph = "int \<rightharpoonup> int list"

definition setdefault :: "graph \<Rightarrow> int \<Rightarrow> graph" where
  "setdefault g k = (case g k of None \<Rightarrow> g(k \<mapsto> []) | Some _ \<Rightarrow> g)"

definition neighbors :: "graph \<Rightarrow> int \<Rightarrow> int list" where
  "neighbors g k = (case g k of None \<Rightarrow> [] | Some l \<Rightarrow> l)"

definition graph_add_song :: "graph \<Rightarrow> int \<Rightarrow> graph" where
  "graph_add_song g sid = setdefault g sid"

text \<open>
  In \<open>add_edge\<close> both keys exist after the two \<open>setdefault\<close> calls, so \<open>self.adj[a]\<close> is
  the list \<open>neighbors\<close> reads.
\<close>

definition add_edge :: "graph \<Rightarrow> int \<Rightarrow> int \<Rightarrow> graph" where
  "add_edge g a b =
     (if a = b then g
      else
        let g1 = setdefault g a;
            g2 = setdefault g1 b;
            g3 = (if b \<notin> set (neighbors g2 a) then g2(a \<mapsto> neighbors g2 a @ [b]) else g2);
            g4 = (if a \<notin> set (neighbors g3 b) then g3(b \<mapsto> neighbors g3 b @ [a]) else g3)
        in g4)"

text \<open>
  \<open>remove_song\<close>: for each neighbour \<open>n\<close> in a copy of the id's own list, the first
  occurrence of the id is removed from the list of \<open>n\<close> when it is there; then the id's
  own entry is deleted.
\<close>

definition strip_from :: "int \<Rightarrow> int \<Rightarrow> graph \<Rightarrow> graph" where
  "strip_from sid n g =
     (if sid \<in> set (neighbors g n) then g(n \<mapsto> remove1 sid (neighbors g n)) else g)"

definition graph_remove_song :: "graph \<Rightarrow> int \<Rightarrow> graph" where
  "graph_remove_song g sid =
     (case g sid of
        None \<Rightarrow> g
      | Some ns \<Rightarrow> (fold (strip_from sid) ns g)(sid := None))"

section \<open>The library manager\<close>

text \<open>
  \<open>MusicLibraryManager\<close>.  The fields of the object, the store of \<open>Song\<close> objects and
  its next free address.  The history list starts at the top of the stack.
\<close>

record manager =
  store :: store
  next_ref :: ref
  library :: "ref list"
  genres :: genre_list
  bst :: bst
  queue :: "ref list"
  history :: "ref list"
  graph :: graph
  playlists :: "string \<rightharpoonup> ref list"
  song_index :: "int \<rightharpoonup> ref"
  next_id :: int

datatype py_error = KeyError

subsection \<open>Scanning and building\<close>

definition accepted :: "string \<Rightarrow> bool" where
  "accepted fname = (suffix ''.mp3'' (lower fname) \<or> suffix ''.wav'' (lower fname))"

definition new_song :: "int \<Rightarrow> string \<Rightarrow> song" where
  "new_song sid fname =
     \<lparr>song_id = sid,
      title = replace_underscore (splitext_base fname),
      artist = ''Unknown'',
      album = ''Unknown'',
      genre = ''Unknown'',
      year = 2024,
      duration_seconds = 0,
      file_path = ''static/music/'' @ fname,
      play_count = 0,
      is_favorite = False\<rparr>"

definition get_all_songs :: "manager \<Rightarrow> ref list" where
  "get_all_songs st = library st"

definition get_song_by_id :: "manager \<Rightarrow> int \<Rightarrow> ref option" where
  "get_song_by_id st sid = song_index st sid"

text \<open>The key under which a song enters the tree: \<open>s.title or str(s.song_id)\<close>.\<close>

definition title_key :: "song \<Rightarrow> string" where
  "title_key s = (if title s = [] then str_int (song_id s) else title s)"

definition index_and_insert :: "manager \<Rightarrow> ref \<Rightarrow> manager" where
  "index_and_insert st r =
     (let s = store st r in
      st\<lparr>song_index := (song_index st)(song_id s \<mapsto> r),
         library := sll_append (library st) r,
         genres := genre_add_song (genres st) (if genre s = [] then ''Unknown'' else genre s) r,
         bst := bst_insert (bst st) (title_key s) r,
         graph := graph_add_song (graph st) (song_id s)\<rparr>)"

text \<open>
  The body of the loop over the sorted directory listing for an accepted file: a new song
  object is allocated, inserted, and the id counter is advanced.
\<close>

definition scan_file :: "manager \<Rightarrow> string \<Rightarrow> manager" where
  "scan_file st fname =
     (let r = next_ref st;
          st1 = st\<lparr>store := (store st)(r := new_song (next_id st) fname), next_ref := Suc r\<rparr>;
          st2 = index_and_insert st1 r
      in st2\<lparr>next_id := next_id st2 + 1\<rparr>)"

fun load_files :: "manager \<Rightarrow> string list \<Rightarrow> manager" where
  "load_files st [] = st"
| "load_files st (fname # fs) =
     (if \<not> accepted fname then load_files st fs else load_files (scan_file st fname) fs)"

definition score :: "song \<Rightarrow> song \<Rightarrow> int" where
  "score a b =
     (if artist a \<noteq> [] \<and> artist b \<noteq> [] \<and> artist a = artist b then 3 else 0)
     + (if genre a \<noteq> [] \<and> genre b \<noteq> [] \<and> genre a = genre b then 2 else 0)
     + (if \<bar>year a - year b\<bar> \<le> 2 then 1 else 0)"

text \<open>The inner loop over \<open>j\<close> for a fixed \<open>a = all_songs[i]\<close>, then the loop over \<open>i\<close>.\<close>

fun edges_from :: "store \<Rightarrow> ref \<Rightarrow> ref list \<Rightarrow> graph \<Rightarrow> graph" where
  "edges_from h a [] g = g"
| "edges_from h a (b # bs) g =
     edges_from h a bs
       (if score (h a) (h b) \<ge> 2 then add_edge g (song_id (h a)) (song_id (h b)) else g)"

fun build_edges :: "store \<Rightarrow> ref list \<Rightarrow> graph \<Rightarrow> graph" where
  "build_edges h [] g = g"
| "build_edges h (a # rest) g = build_edges h rest (edges_from h a rest g)"

text \<open>
  The graph before the edges are built: \<open>_index_and_insert\<close> has called \<open>add_song\<close>
  for the id of every song.
\<close>

definition add_nodes :: "store \<Rightarrow> ref list \<Rightarrow> graph \<Rightarrow> graph" where
  "add_nodes h songs g = fold (\<lambda>r g. graph_add_song g (song_id (h r))) songs g"

text \<open>\<open>rescan\<close>; the directory listing is its input.\<close>

definition rescan :: "manager \<Rightarrow> string list \<Rightarrow> manager" where
  "rescan st listing =
     (let st0 = st\<lparr>library := [], genres := [], bst := Leaf, graph := Map.empty,
                   song_index := Map.empty, next_id := 1\<rparr>;
          st1 = load_files st0 (sort listing)
      in st1\<lparr>graph := build_edges (store st1) (get_all_songs st1) (graph st1)\<rparr>)"

text \<open>
  The constructor.  The store starts with no object allocated; the song at an address not
  yet allocated is never read.
\<close>

definition blank_song :: song where
  "blank_song =
     \<lparr>song_id = 0, title = [], artist = [], album = [], genre = [], year = 0,
      duration_seconds = 0, file_path = [], play_count = 0, is_favorite = False\<rparr>"

definition new_manager :: "string list \<Rightarrow> manager" where
  "new_manager listing =
     rescan \<lparr>store = (\<lambda>_. blank_song), next_ref = 0, library = [], genres = [], bst = Leaf,
             queue = [], history = [], graph = Map.empty, playlists = Map.empty,
             song_index = Map.empty, next_id = 1\<rparr> listing"

subsection \<open>Library\<close>

text \<open>
  The keyword arguments of \<open>update_song\<close>: one optional value for each attribute of a song
  (a keyword that names no attribute is ignored by \<open>hasattr\<close>).
\<close>

record song_fields =
  f_song_id :: "int option"
  f_title :: "string option"
  f_artist :: "string option"
  f_album :: "string option"
  f_genre :: "string option"
  f_year :: "int option"
  f_duration_seconds :: "int option"
  f_file_path :: "string option"
  f_play_count :: "int option"
  f_is_favorite :: "bool option"

definition no_fields :: song_fields where
  "no_fields =
     \<lparr>f_song_id = None, f_title = None, f_artist = None, f_album = None, f_genre = None,
      f_year = None, f_duration_seconds = None, f_file_path = None, f_play_count = None,
      f_is_favorite = None\<rparr>"

definition setattrs :: "song_fields \<Rightarrow> song \<Rightarrow> song" where
  "setattrs f s =
     \<lparr>song_id = (case f_song_id f of None \<Rightarrow> song_id s | Some v \<Rightarrow> v),
      title = (case f_title f of None \<Rightarrow> title s | Some v \<Rightarrow> v),
      artist = (case f_artist f of None \<Rightarrow> artist s | Some v \<Rightarrow> v),
      album = (case f_album f of None \<Rightarrow> album s | Some v \<Rightarrow> v),
      genre = (case f_genre f of None \<Rightarrow> genre s | Some v \<Rightarrow> v),
      year = (case f_year f of None \<Rightarrow> year s | Some v \<Rightarrow> v),
      duration_seconds = (case f_duration_seconds f of None \<Rightarrow> duration_seconds s | Some v \<Rightarrow> v),
      file_path = (case f_file_path f of None \<Rightarrow> file_path s | Some v \<Rightarrow> v),
      play_count = (case f_play_count f of None \<Rightarrow> play_count s | Some v \<Rightarrow> v),
      is_favorite = (case f_is_favorite f of None \<Rightarrow> is_favorite s | Some v \<Rightarrow> v)\<rparr>"

text \<open>The tree rebuilt from the songs of the library, in library order.\<close>

definition rebuild_bst :: "store \<Rightarrow> ref list \<Rightarrow> bst" where
  "rebuild_bst h songs = fold (\<lambda>r t. bst_insert t (title_key (h r)) r) songs Leaf"

definition update_song :: "manager \<Rightarrow> int \<Rightarrow> song_fields \<Rightarrow> manager" where
  "update_song st sid f =
     (case song_index st sid of
        None \<Rightarrow> st
      | Some r \<Rightarrow>
          let old_genre = genre (store st r);
              old_title = title (store st r);
              h = (store st)(r := setattrs f (store st r));
              st1 = st\<lparr>store := h\<rparr>;
              st2 = (if old_genre \<noteq> genre (h r)
                     then st1\<lparr>genres :=
                            genre_add_song
                              (genre_remove_song (genres st1) old_genre (\<lambda>x. song_id (h x) = sid))
                              (genre (h r)) r\<rparr>
                     else st1)
          in if old_title \<noteq> title (h r)
             then st2\<lparr>bst := rebuild_bst h (get_all_songs st2)\<rparr>
             else st2)"

text \<open>
  \<open>delete_song\<close>.  The queue is rebuilt by enqueueing the songs kept, the history by
  pushing the songs kept from the bottom of the old stack upwards.
\<close>

definition delete_song :: "manager \<Rightarrow> int \<Rightarrow> manager" where
  "delete_song st sid =
     (case song_index st sid of
        None \<Rightarrow> st
      | Some r \<Rightarrow>
          let h = store st;
              lib = sll_remove (\<lambda>x. song_id (h x) = sid) (library st);
              gs = genre_remove_song (genres st) (genre (h r)) (\<lambda>x. song_id (h x) = sid);
              new_q = fold (\<lambda>x q. if song_id (h x) \<noteq> sid then queue_enqueue q x else q)
                        (queue st) [];
              new_hist = fold (\<lambda>x stk. if song_id (h x) \<noteq> sid then stack_push stk x else stk)
                           (rev (history st)) []
          in st\<lparr>library := lib,
                genres := gs,
                song_index := (song_index st)(sid := None),
                bst := rebuild_bst h lib,
                queue := new_q,
                history := new_hist,
                playlists := (\<lambda>name. map_option (remove_by_id h sid) (playlists st name)),
                graph := graph_remove_song (graph st) sid\<rparr>)"

subsection \<open>Favorites, genres, search\<close>

definition toggle_favorite :: "manager \<Rightarrow> int \<Rightarrow> bool option \<times> manager" where
  "toggle_favorite st sid =
     (case song_index st sid of
        None \<Rightarrow> (None, st)
      | Some r \<Rightarrow>
          let s = (store st r)\<lparr>is_favorite := \<not> is_favorite (store st r)\<rparr>
          in (Some (is_favorite s), st\<lparr>store := (store st)(r := s)\<rparr>))"

definition get_all_genres :: "manager \<Rightarrow> string list" where
  "get_all_genres st = get_genres (genres st)"

definition get_songs_by_genre :: "manager \<Rightarrow> string \<Rightarrow> ref list" where
  "get_songs_by_genre st g = get_songs (genres st) g"

definition search_by_title :: "manager \<Rightarrow> string \<Rightarrow> ref list" where
  "search_by_title st query =
     (case bst_search (bst st) query of
        Some exact \<Rightarrow> [exact]
      | None \<Rightarrow> partial_match (bst st) query)"

subsection \<open>Playlists, queue, history\<close>

definition create_playlist :: "manager \<Rightarrow> string \<Rightarrow> manager" where
  "create_playlist st name =
     (if name \<notin> dom (playlists st) then st\<lparr>playlists := (playlists st)(name \<mapsto> [])\<rparr> else st)"

definition delete_playlist :: "manager \<Rightarrow> string \<Rightarrow> manager" where
  "delete_playlist st name =
     (if name \<in> dom (playlists st) then st\<lparr>playlists := (playlists st)(name := None)\<rparr> else st)"

text \<open>\<open>self.playlists[name]\<close> raises \<open>KeyError\<close> when the name is not a key.\<close>

definition add_song_to_playlist :: "manager \<Rightarrow> string \<Rightarrow> int \<Rightarrow> py_error + manager" where
  "add_song_to_playlist st name sid =
     (let st1 = create_playlist st name in
      case get_song_by_id st1 sid of
        None \<Rightarrow> Inr st1
      | Some r \<Rightarrow>
          (case playlists st1 name of
             None \<Rightarrow> Inl KeyError
           | Some pl \<Rightarrow> Inr (st1\<lparr>playlists := (playlists st1)(name \<mapsto> playlist_add pl r)\<rparr>)))"

definition remove_song_from_playlist :: "manager \<Rightarrow> string \<Rightarrow> int \<Rightarrow> manager" where
  "remove_song_from_playlist st name sid =
     (case playlists st name of
        None \<Rightarrow> st
      | Some pl \<Rightarrow> st\<lparr>playlists := (playlists st)(name \<mapsto> remove_by_id (store st) sid pl)\<rparr>)"

definition get_playlist_songs :: "manager \<Rightarrow> string \<Rightarrow> ref list" where
  "get_playlist_songs st name = (case playlists st name of None \<Rightarrow> [] | Some pl \<Rightarrow> pl)"

definition enqueue_song :: "manager \<Rightarrow> int \<Rightarrow> manager" where
  "enqueue_song st sid =
     (case get_song_by_id st sid of
        None \<Rightarrow> st
      | Some r \<Rightarrow> st\<lparr>queue := queue_enqueue (queue st) r\<rparr>)"

definition dequeue_song :: "manager \<Rightarrow> ref option \<times> manager" where
  "dequeue_song st = (case queue_dequeue (queue st) of (x, q) \<Rightarrow> (x, st\<lparr>queue := q\<rparr>))"

definition get_queue_list :: "manager \<Rightarrow> ref list" where
  "get_queue_list st = queue st"

definition record_play :: "manager \<Rightarrow> ref \<Rightarrow> manager" where
  "record_play st r =
     st\<lparr>store := (store st)(r := (store st r)\<lparr>play_count := play_count (store st r) + 1\<rparr>),
        history := stack_push (history st) r\<rparr>"

text \<open>\<open>self.history.to_list()[:limit]\<close>; a negative limit counts from the end.\<close>

definition get_history_list :: "manager \<Rightarrow> int \<Rightarrow> ref list" where
  "get_history_list st limit =
     (if 0 \<le> limit then take (nat limit) (history st)
      else take (length (history st) - nat (- limit)) (history st))"

subsection \<open>Recommendation and playback\<close>

text \<open>
  The random source is an input: \<open>shuf\<close> is what \<open>random.shuffle\<close> leaves in the list and
  \<open>pick\<close> what \<open>random.choice\<close> returns on a non-empty list.
\<close>

definition get_similar_songs :: "manager \<Rightarrow> int \<Rightarrow> int list" where
  "get_similar_songs st sid = neighbors (graph st) sid"

fun first_known :: "manager \<Rightarrow> int list \<Rightarrow> ref option" where
  "first_known st [] = None"
| "first_known st (nid # rest) =
     (case get_song_by_id st nid of Some s \<Rightarrow> Some s | None \<Rightarrow> first_known st rest)"

definition random_song :: "(ref list \<Rightarrow> ref) \<Rightarrow> manager \<Rightarrow> ref option" where
  "random_song pick st =
     (if get_all_songs st = [] then None else Some (pick (get_all_songs st)))"

definition get_next_similar_song ::
  "(int list \<Rightarrow> int list) \<Rightarrow> (ref list \<Rightarrow> ref) \<Rightarrow> manager \<Rightarrow> int \<Rightarrow> ref option" where
  "get_next_similar_song shuf pick st sid =
     (case first_known st (shuf (neighbors (graph st) sid)) of
        Some s \<Rightarrow> Some s
      | None \<Rightarrow> random_song pick st)"

text \<open>
  The guard \<open>current_playlist_name and current_playlist_name in self.playlists and
  current_song_id\<close>: the name is given and not empty, it is a key, the id is given and not
  zero.  \<open>playlist_step\<close> is the value of \<open>nxt\<close> (or \<open>prv\<close>) when the guard holds, and
  \<open>None\<close> when it does not.
\<close>

definition playlist_step ::
  "(store \<Rightarrow> ref list \<Rightarrow> int \<Rightarrow> ref option) \<Rightarrow> manager \<Rightarrow> int option \<Rightarrow> string option
   \<Rightarrow> ref option" where
  "playlist_step step st current_song_id current_playlist_name =
     (case current_playlist_name of
        None \<Rightarrow> None
      | Some name \<Rightarrow>
          if name = [] then None
          else (case playlists st name of
                  None \<Rightarrow> None
                | Some pl \<Rightarrow>
                    (case current_song_id of
                       None \<Rightarrow> None
                     | Some c \<Rightarrow> if c = 0 then None else step (store st) pl c)))"

definition get_next_song ::
  "(int list \<Rightarrow> int list) \<Rightarrow> (ref list \<Rightarrow> ref) \<Rightarrow> manager \<Rightarrow> int option \<Rightarrow> string option
   \<Rightarrow> ref option \<times> manager" where
  "get_next_song shuf pick st current_song_id current_playlist_name =
     (case playlist_step next_of st current_song_id current_playlist_name of
        Some nxt \<Rightarrow> (Some nxt, st)
      | None \<Rightarrow>
          (case dequeue_song st of
             (Some q, st1) \<Rightarrow> (Some q, st1)
           | (None, st1) \<Rightarrow>
               (case (case current_song_id of
                        None \<Rightarrow> None
                      | Some c \<Rightarrow> if c = 0 then None else get_next_similar_song shuf pick st1 c) of
                  Some s \<Rightarrow> (Some s, st1)
                | None \<Rightarrow> (random_song pick st1, st1))))"


section \<open>Example libraries\<close>

text \<open>
  Managers reached by calls of the operations, used to run the theorems below: the library
  scanned from three files, the same with a playlist of its three songs, with a song in
  the queue and one in the history, with three plays recorded, and with a playlist in which
  one song occurs twice.
\<close>

definition abc :: manager where
  "abc = new_manager [''a.mp3'', ''b.mp3'', ''c.mp3'']"

definition road_trip :: manager where
  "road_trip =
     projr (add_song_to_playlist
       (projr (add_song_to_playlist
         (projr (add_song_to_playlist abc ''Road Trip'' 1)) ''Road Trip'' 2)) ''Road Trip'' 3)"

definition abc_busy :: manager where
  "abc_busy = record_play (enqueue_song road_trip 1) 0"


definition repeats :: manager where
  "repeats =
     projr (add_song_to_playlist
       (projr (add_song_to_playlist
         (projr (add_song_to_playlist
           (projr (add_song_to_playlist abc ''Road Trip'' 2)) ''Road Trip'' 1)) ''Road Trip'' 2))
       ''Road Trip'' 3)"

text \<open>
  The library scanned from one file; the same after its song was put in a playlist, in the
  queue and in the history; the same with the song twice in a playlist; a library of two
  files whose names differ in case only; and the three songs of the first library tagged as
  X/Rock/2020, X/Pop/2021 and Y/Jazz/1990.
\<close>

definition one :: manager where
  "one = new_manager [''a.mp3'']"

definition one_in_use :: manager where
  "one_in_use = record_play (enqueue_song (projr (add_song_to_playlist one ''mix'' 1)) 1) 0"

definition one_twice :: manager where
  "one_twice = projr (add_song_to_playlist (projr (add_song_to_playlist one ''mix'' 1)) ''mix'' 1)"

definition hello :: manager where
  "hello = new_manager [''Hello.mp3'', ''hello.mp3'']"

definition genre_only :: "string \<Rightarrow> song_fields" where
  "genre_only g = no_fields\<lparr>f_genre := Some g\<rparr>"

definition tagged :: "string \<Rightarrow> string \<Rightarrow> int \<Rightarrow> song_fields" where
  "tagged a g y = no_fields\<lparr>f_artist := Some a, f_genre := Some g, f_year := Some y\<rparr>"

definition scenario :: manager where
  "scenario =
     update_song
       (update_song (update_song abc 1 (tagged ''X'' ''Rock'' 2020)) 2 (tagged ''X'' ''Pop'' 2021))
       3 (tagged ''Y'' ''Jazz'' 1990)"


section \<open>Lowercasing\<close>

text \<open>
  The accented capital 201 is folded to 233, the multiplication sign 215 is not folded.  So
  two file names, and two genre names, that differ in the case of an accented letter share
  one tree key and one genre entry.
\<close>

lemma lower_accented:
  "lower [char_of (201::nat)] = [char_of (233::nat)]
   \<and> lower [char_of (233::nat)] = [char_of (233::nat)]
   \<and> lower [char_of (215::nat)] = [char_of (215::nat)]
   \<and> lower ''AbZ_9'' = ''abz_9''"
  by code_simp

lemma accented_collisions:
  "title (store (new_manager [char_of (201::nat) # ''.mp3'', char_of (233::nat) # ''.mp3'']) 0)
     = [char_of (201::nat)]
   \<and> search_by_title (new_manager [char_of (201::nat) # ''.mp3'', char_of (233::nat) # ''.mp3''])
        [char_of (201::nat)] = [1]
   \<and> get_songs_by_genre
        (update_song (update_song one 1 (genre_only [char_of (201::nat)])) 1
           (genre_only [char_of (233::nat)]))
        [char_of (201::nat)] = [0]"
  by code_simp

section \<open>Favorites\<close>

text \<open>
  Claim C10.  \<open>toggle_favorite\<close> returns \<open>None\<close> exactly when the id is unknown, and
  leaves the manager as it was exactly when the id is unknown.  For a known id it returns
  the negated flag, the new manager differs from the old one only in the \<open>is_favorite\<close>
  attribute of that one song object, and a second call on the same id returns the original
  flag and restores the original manager.
\<close>

theorem toggle_favorite_spec:
  "(fst (toggle_favorite st sid) = None \<longleftrightarrow> song_index st sid = None)
   \<and> (snd (toggle_favorite st sid) = st \<longleftrightarrow> song_index st sid = None)
   \<and> (\<forall>r. song_index st sid = Some r \<longrightarrow>
         fst (toggle_favorite st sid) = Some (\<not> is_favorite (store st r))
       \<and> snd (toggle_favorite st sid)
           = st\<lparr>store := (store st)(r := (store st r)\<lparr>is_favorite := \<not> is_favorite (store st r)\<rparr>)\<rparr>
       \<and> fst (toggle_favorite (snd (toggle_favorite st sid)) sid) = Some (is_favorite (store st r))
       \<and> snd (toggle_favorite (snd (toggle_favorite st sid)) sid) = st)"
proof -
  have unknown: "song_index st sid = None \<Longrightarrow> toggle_favorite st sid = (None, st)"
    by (simp add: toggle_favorite_def)
  have known: "toggle_favorite st sid =
      (Some (\<not> is_favorite (store st r)),
       st\<lparr>store := (store st)(r := (store st r)\<lparr>is_favorite := \<not> is_favorite (store st r)\<rparr>)\<rparr>)"
    if "song_index st sid = Some r" for r
    using that by (simp add: toggle_favorite_def Let_def)
  have changed: "st\<lparr>store := (store st)(r := (store st r)\<lparr>is_favorite := \<not> is_favorite (store st r)\<rparr>)\<rparr> \<noteq> st" for r
  proof
    assume "st\<lparr>store := (store st)(r := (store st r)\<lparr>is_favorite := \<not> is_favorite (store st r)\<rparr>)\<rparr> = st"
    then have "store (st\<lparr>store := (store st)(r := (store st r)\<lparr>is_favorite := \<not> is_favorite (store st r)\<rparr>)\<rparr>) r = store st r"
      by simp
    then have "is_favorite ((store st r)\<lparr>is_favorite := \<not> is_favorite (store st r)\<rparr>) = is_favorite (store st r)"
      by simp
    then show False by simp
  qed
  have twice: "snd (toggle_favorite (snd (toggle_favorite st sid)) sid) = st
     \<and> fst (toggle_favorite (snd (toggle_favorite st sid)) sid) = Some (is_favorite (store st r))"
    if "song_index st sid = Some r" for r
    using that by (simp add: toggle_favorite_def Let_def)
  show ?thesis
  proof (cases "song_index st sid")
    case None
    then show ?thesis using unknown by simp
  next
    case (Some r)
    then show ?thesis using known[OF Some] changed[of r] twice[OF Some] by simp
  qed
qed

text \<open>
  Witness for C10 on the library scanned from one file: id 1 is known, id 2 is not.
\<close>

theorem toggle_favorite_spec_witness:
  "song_index (new_manager [''a.mp3'']) 1 = Some 0
   \<and> song_index (new_manager [''a.mp3'']) 2 = None
   \<and> is_favorite (store (new_manager [''a.mp3'']) 0) = False
   \<and> fst (toggle_favorite (new_manager [''a.mp3'']) 1) = Some True
   \<and> snd (toggle_favorite (new_manager [''a.mp3'']) 1) \<noteq> new_manager [''a.mp3'']
   \<and> snd (toggle_favorite (snd (toggle_favorite (new_manager [''a.mp3'']) 1)) 1) = new_manager [''a.mp3'']
   \<and> toggle_favorite (new_manager [''a.mp3'']) 2 = (None, new_manager [''a.mp3''])"
proof -
  have a: "song_index (new_manager [''a.mp3'']) 1 = Some 0" by code_simp
  have b: "song_index (new_manager [''a.mp3'']) 2 = None" by code_simp
  have c: "is_favorite (store (new_manager [''a.mp3'']) 0) = False" by code_simp
  note k = toggle_favorite_spec [of "new_manager [''a.mp3'']" 1]
  note u = toggle_favorite_spec [of "new_manager [''a.mp3'']" 2]
  note kk = k [THEN conjunct2, THEN conjunct2, rule_format, OF a]
  from kk c have 1: "fst (toggle_favorite (new_manager [''a.mp3'']) 1) = Some True" by simp
  from k a have 2: "snd (toggle_favorite (new_manager [''a.mp3'']) 1) \<noteq> new_manager [''a.mp3'']" by auto
  from kk have 3: "snd (toggle_favorite (snd (toggle_favorite (new_manager [''a.mp3'']) 1)) 1) = new_manager [''a.mp3'']" by blast
  from u b have 4: "toggle_favorite (new_manager [''a.mp3'']) 2 = (None, new_manager [''a.mp3''])"
    by (simp add: prod_eq_iff)
  from a b c 1 2 3 4 show ?thesis by blast
qed


section \<open>Playlists\<close>

text \<open>
  Claim C9.  \<open>add_song_to_playlist\<close> never raises: it returns a manager in which the
  name is a playlist.  With an unknown id, a playlist that did not exist is created empty
  and nothing else changes, and a playlist that existed leaves the manager as it was.  With
  a known id the song is appended to the playlist (created empty first when it was
  missing).
\<close>

theorem add_song_to_playlist_spec:
  "\<exists>st'. add_song_to_playlist st name sid = Inr st'
      \<and> name \<in> dom (playlists st')
      \<and> (song_index st sid = None \<and> name \<notin> dom (playlists st)
           \<longrightarrow> st' = st\<lparr>playlists := (playlists st)(name \<mapsto> [])\<rparr>)
      \<and> (song_index st sid = None \<and> name \<in> dom (playlists st) \<longrightarrow> st' = st)
      \<and> (\<forall>r. song_index st sid = Some r
           \<longrightarrow> st' = st\<lparr>playlists := (playlists st)(name \<mapsto> get_playlist_songs st name @ [r])\<rparr>)"
proof (cases "song_index st sid")
  case None
  then show ?thesis
    by (simp add: add_song_to_playlist_def create_playlist_def get_song_by_id_def Let_def)
next
  case (Some r)
  show ?thesis
  proof (cases "playlists st name")
    case None
    with Some show ?thesis
      by (simp add: add_song_to_playlist_def create_playlist_def get_song_by_id_def Let_def
          get_playlist_songs_def playlist_add_def dll_append_def dom_def)
  next
    case (Some pl)
    with \<open>song_index st sid = Some r\<close> show ?thesis
      by (simp add: add_song_to_playlist_def create_playlist_def get_song_by_id_def Let_def
          get_playlist_songs_def playlist_add_def dll_append_def dom_def)
  qed
qed

text \<open>
  Witness for C9: an unknown id with a new name, a known id with a new name, and an unknown
  id with an existing playlist.
\<close>

theorem add_song_to_playlist_spec_witness:
  "add_song_to_playlist abc ''mix'' 7 = Inr (abc\<lparr>playlists := (playlists abc)(''mix'' \<mapsto> [])\<rparr>)
   \<and> add_song_to_playlist abc ''mix'' 1 = Inr (abc\<lparr>playlists := (playlists abc)(''mix'' \<mapsto> [0])\<rparr>)
   \<and> add_song_to_playlist road_trip ''Road Trip'' 7 = Inr road_trip"
proof -
  have a: "song_index abc 7 = None" by code_simp
  have b: "playlists abc ''mix'' = None" by code_simp
  have c: "song_index abc 1 = Some 0" by code_simp
  have d: "song_index road_trip 7 = None" by code_simp
  have e: "playlists road_trip ''Road Trip'' = Some [0, 1, 2]" by code_simp
  from b have b': "''mix'' \<notin> dom (playlists abc)" by (simp add: dom_def)
  from b have b'': "get_playlist_songs abc ''mix'' = []" by (simp add: get_playlist_songs_def)
  from e have e': "''Road Trip'' \<in> dom (playlists road_trip)" by (simp add: dom_def)
  from add_song_to_playlist_spec [of abc "''mix''" 7] a b'
  have 1: "add_song_to_playlist abc ''mix'' 7 = Inr (abc\<lparr>playlists := (playlists abc)(''mix'' \<mapsto> [])\<rparr>)"
    by auto
  from add_song_to_playlist_spec [of abc "''mix''" 1] c b''
  have 2: "add_song_to_playlist abc ''mix'' 1 = Inr (abc\<lparr>playlists := (playlists abc)(''mix'' \<mapsto> [0])\<rparr>)"
    by auto
  from add_song_to_playlist_spec [of road_trip "''Road Trip''" 7] d e'
  have 3: "add_song_to_playlist road_trip ''Road Trip'' 7 = Inr road_trip"
    by auto
  from 1 2 3 show ?thesis by blast
qed

section \<open>Playback\<close>

text \<open>
  Claim C4, as the code has it.  When the playlist name is not empty and the id \<open>b\<close> is
  not zero, and the first song of the playlist with id \<open>b\<close> is followed by the song
  \<open>rc\<close>, then \<open>get_next_song\<close> returns \<open>rc\<close> whatever the queue, the history and the
  random source are, and the manager (so the queue and the history) is unchanged.
\<close>

theorem get_next_song_playlist:
  assumes "playlists st name = Some (pre @ rb # rc # post)"
    and "name \<noteq> []" and "b \<noteq> 0"
    and "song_id (store st rb) = b"
    and "\<forall>x \<in> set pre. song_id (store st x) \<noteq> b"
  shows "get_next_song shuf pick st (Some b) (Some name) = (Some rc, st)"
proof -
  have "next_of (store st) (pre @ rb # rc # post) b = Some rc"
    using assms(4,5) by (induction pre) auto
  with assms(1,2,3) show ?thesis
    by (simp add: get_next_song_def playlist_step_def)
qed

text \<open>
  Witness for C4: the playlist of the three songs, with a song waiting in the queue and one
  in the history; after the song with id 2 comes the third song.
\<close>

theorem get_next_song_playlist_witness:
  "playlists abc_busy ''Road Trip'' = Some [0, 1, 2]
   \<and> song_id (store abc_busy 1) = 2
   \<and> queue abc_busy = [0] \<and> history abc_busy = [0]
   \<and> get_next_song id hd abc_busy (Some 2) (Some ''Road Trip'') = (Some 2, abc_busy)"
proof -
  have a: "playlists abc_busy ''Road Trip'' = Some ([0] @ 1 # 2 # [])" by code_simp
  have b: "song_id (store abc_busy 1) = 2" by code_simp
  have c: "\<forall>x \<in> set [0]. song_id (store abc_busy x) \<noteq> 2" by code_simp
  have q: "queue abc_busy = [0]" by code_simp
  have h: "history abc_busy = [0]" by code_simp
  have n: "''Road Trip'' \<noteq> []" by simp
  have z: "(2::int) \<noteq> 0" by simp
  from get_next_song_playlist [OF a n z b c, of id hd] a b q h show ?thesis by simp
qed

text \<open>
  Counterexample to C4 as stated: in the playlist B, A, B, C the song with id 2 (B) is
  followed immediately by C at its second occurrence, but \<open>get_next_song\<close> returns A,
  the song after the first occurrence.
\<close>

theorem get_next_song_playlist_counterexample:
  "playlists repeats ''Road Trip'' = Some [1, 0, 1, 2]
   \<and> song_id (store repeats 1) = 2
   \<and> song_id (store repeats 2) = 3
   \<and> song_id (store repeats 0) = 1
   \<and> fst (get_next_song id hd repeats (Some 2) (Some ''Road Trip'')) = Some 0"
  by code_simp




section \<open>Scanning\<close>

lemma scan_file_simps [simp]:
  "next_ref (scan_file st f) = Suc (next_ref st)"
  "next_id (scan_file st f) = next_id st + 1"
  "library (scan_file st f) = library st @ [next_ref st]"
  "store (scan_file st f) = (store st)(next_ref st := new_song (next_id st) f)"
  "queue (scan_file st f) = queue st"
  "history (scan_file st f) = history st"
  "playlists (scan_file st f) = playlists st"
  by (simp_all add: scan_file_def index_and_insert_def Let_def sll_append_def)

lemma load_files_next_ref:
  "next_ref (load_files st fs) = next_ref st + length (filter accepted fs)"
  by (induction fs arbitrary: st) simp_all

lemma load_files_next_id:
  "next_id (load_files st fs) = next_id st + int (length (filter accepted fs))"
  by (induction fs arbitrary: st) simp_all

lemma load_files_store_old:
  "r < next_ref st \<Longrightarrow> store (load_files st fs) r = store st r"
  by (induction fs arbitrary: st) simp_all

lemma upt_first: "[a ..< Suc (a + n)] = a # [Suc a ..< Suc (a + n)]"
  by (rule upt_conv_Cons) simp

lemma load_files_library:
  "library (load_files st fs)
     = library st @ [next_ref st ..< next_ref st + length (filter accepted fs)]"
proof (induction fs arbitrary: st)
  case Nil
  show ?case by simp
next
  case (Cons f fs)
  show ?case
  proof (cases "accepted f")
    case True
    then show ?thesis
      by (simp add: Cons.IH upt_first del: upt_Suc)
  next
    case False
    then show ?thesis by (simp add: Cons.IH)
  qed
qed

lemma load_files_ids:
  "map (\<lambda>r. song_id (store (load_files st fs) r))
       [next_ref st ..< next_ref st + length (filter accepted fs)]
     = [next_id st .. next_id st + int (length (filter accepted fs)) - 1]"
proof (induction fs arbitrary: st)
  case Nil
  show ?case by simp
next
  case (Cons f fs)
  show ?case
  proof (cases "accepted f")
    case True
    have "song_id (store (load_files (scan_file st f) fs) (next_ref st)) = next_id st"
      by (simp add: load_files_store_old new_song_def)
    with True Cons.IH [of "scan_file st f"] show ?thesis
      by (simp add: upt_first upto_rec1 [of "next_id st"] add.commute del: upt_Suc)
  next
    case False
    then show ?thesis by (simp add: Cons.IH)
  qed
qed

lemma load_files_paths:
  "map (\<lambda>r. file_path (store (load_files st fs) r))
       [next_ref st ..< next_ref st + length (filter accepted fs)]
     = map (\<lambda>f. ''static/music/'' @ f) (filter accepted fs)"
proof (induction fs arbitrary: st)
  case Nil
  show ?case by simp
next
  case (Cons f fs)
  show ?case
  proof (cases "accepted f")
    case True
    have "file_path (store (load_files (scan_file st f) fs) (next_ref st)) = ''static/music/'' @ f"
      by (simp add: load_files_store_old new_song_def)
    with True Cons.IH [of "scan_file st f"] show ?thesis
      by (simp add: upt_first del: upt_Suc)
  next
    case False
    then show ?thesis by (simp add: Cons.IH)
  qed
qed

lemma length_filter_sort: "length (filter P (sort xs)) = length (filter P xs)"
  by (simp add: filter_sort)

lemma delete_song_keeps_objects:
  "next_id (delete_song st sid) = next_id st \<and> store (delete_song st sid) = store st
   \<and> next_ref (delete_song st sid) = next_ref st"
  by (simp add: delete_song_def Let_def split: option.splits)

lemma rescan_library_ids:
  "map (\<lambda>r. song_id (store (rescan st listing) r)) (library (rescan st listing))
     = [1 .. int (length (filter accepted listing))]"
proof -
  define st0 where "st0 = st\<lparr>library := [], genres := [], bst := Leaf, graph := Map.empty,
                   song_index := Map.empty, next_id := 1\<rparr>"
  define st1 where "st1 = load_files st0 (sort listing)"
  have r: "rescan st listing = st1\<lparr>graph := build_edges (store st1) (get_all_songs st1) (graph st1)\<rparr>"
    by (simp add: rescan_def st0_def st1_def Let_def)
  have lib: "library st1 = [next_ref st0 ..< next_ref st0 + length (filter accepted (sort listing))]"
    unfolding st1_def by (simp add: load_files_library st0_def)
  have n: "length (filter accepted (sort listing)) = length (filter accepted listing)"
    by (rule length_filter_sort)
  have "map (\<lambda>r. song_id (store st1 r)) (library st1) = [1 .. int (length (filter accepted listing))]"
    unfolding lib unfolding st1_def using load_files_ids [of st0 "sort listing"]
    by (simp add: n st0_def)
  then show ?thesis by (simp add: r)
qed

lemma rescan_distinct_ids:
  "distinct (map (\<lambda>r. song_id (store (rescan st listing) r)) (library (rescan st listing)))"
  by (simp add: rescan_library_ids)

text \<open>
  Claim C2, as the code has it.  After a scan the ids of the songs of the library are
  1, 2, ..., n in the order of the sorted file names, where n is the number of accepted
  files, and the counter stands at n + 1.  \<open>delete_song\<close> allocates no song and leaves
  the counter alone, so a delete never gives an id to another song.  (Each scan starts
  again at 1: ids are unique within a scan, not across scans.)
\<close>

theorem rescan_song_ids:
  "map (\<lambda>r. song_id (store (rescan st listing) r)) (library (rescan st listing))
     = [1 .. int (length (filter accepted listing))]
   \<and> map (\<lambda>r. file_path (store (rescan st listing) r)) (library (rescan st listing))
     = map (\<lambda>f. ''static/music/'' @ f) (filter accepted (sort listing))
   \<and> next_id (rescan st listing) = int (length (filter accepted listing)) + 1
   \<and> next_id (delete_song st sid) = next_id st
   \<and> store (delete_song st sid) = store st
   \<and> next_ref (delete_song st sid) = next_ref st"
proof -
  define st0 where "st0 = st\<lparr>library := [], genres := [], bst := Leaf, graph := Map.empty,
                   song_index := Map.empty, next_id := 1\<rparr>"
  define st1 where "st1 = load_files st0 (sort listing)"
  have r: "rescan st listing = st1\<lparr>graph := build_edges (store st1) (get_all_songs st1) (graph st1)\<rparr>"
    by (simp add: rescan_def st0_def st1_def Let_def)
  have lib: "library st1 = [next_ref st0 ..< next_ref st0 + length (filter accepted (sort listing))]"
    unfolding st1_def by (simp add: load_files_library st0_def)
  have n: "length (filter accepted (sort listing)) = length (filter accepted listing)"
    by (rule length_filter_sort)
  have ids: "map (\<lambda>r. song_id (store st1 r)) (library st1) = [1 .. int (length (filter accepted listing))]"
    unfolding lib unfolding st1_def using load_files_ids [of st0 "sort listing"]
    by (simp add: n st0_def)
  have paths: "map (\<lambda>r. file_path (store st1 r)) (library st1)
      = map (\<lambda>f. ''static/music/'' @ f) (filter accepted (sort listing))"
    unfolding lib unfolding st1_def using load_files_paths [of st0 "sort listing"]
    by simp
  have nid: "next_id st1 = int (length (filter accepted listing)) + 1"
    unfolding st1_def by (simp add: load_files_next_id n st0_def)
  from ids paths nid delete_song_keeps_objects [of st sid] show ?thesis
    by (simp add: r)
qed

text \<open>Witness for C2: a scan of three directory entries, two of them accepted.\<close>

theorem rescan_song_ids_witness:
  "map (\<lambda>r. song_id (store (rescan one [''b.mp3'', ''notes.txt'', ''a.WAV'']) r))
       (library (rescan one [''b.mp3'', ''notes.txt'', ''a.WAV''])) = [1, 2]
   \<and> map (\<lambda>r. file_path (store (rescan one [''b.mp3'', ''notes.txt'', ''a.WAV'']) r))
       (library (rescan one [''b.mp3'', ''notes.txt'', ''a.WAV'']))
      = [''static/music/a.WAV'', ''static/music/b.mp3'']
   \<and> next_id (rescan one [''b.mp3'', ''notes.txt'', ''a.WAV'']) = 3
   \<and> next_id (delete_song one 1) = 2"
proof -
  have f: "filter accepted [''b.mp3'', ''notes.txt'', ''a.WAV''] = [''b.mp3'', ''a.WAV'']"
    by code_simp
  have s: "filter accepted (sort [''b.mp3'', ''notes.txt'', ''a.WAV'']) = [''a.WAV'', ''b.mp3'']"
    by code_simp
  have u: "[1 .. int (length [''b.mp3'', ''a.WAV''])] = [1, 2]" by code_simp
  have n: "next_id one = 2" by code_simp
  from rescan_song_ids [of one "[''b.mp3'', ''notes.txt'', ''a.WAV'']" 1] f s u n
  show ?thesis by simp
qed

text \<open>
  Counterexample to C2 as stated: after the library of \<open>a.mp3\<close> is rescanned over a
  directory that holds \<open>b.mp3\<close> only, two song objects were created in this process, for
  different files, and both have id 1.
\<close>

theorem song_id_reused_counterexample:
  "next_ref (rescan one [''b.mp3'']) = 2
   \<and> song_id (store (rescan one [''b.mp3'']) 0) = 1
   \<and> song_id (store (rescan one [''b.mp3'']) 1) = 1
   \<and> file_path (store (rescan one [''b.mp3'']) 0) = ''static/music/a.mp3''
   \<and> file_path (store (rescan one [''b.mp3'']) 1) = ''static/music/b.mp3''"
  by code_simp

text \<open>
  Claim C1 at a failing input.  The song of a one-file library is put in a playlist, in the
  queue and in the history; the directory is emptied and rescanned.  The playlist, the queue
  and the history still hold the song with id 1, and id 1 is not in the id-lookup index.
\<close>

theorem rescan_leaves_stale_ids:
  "queue (rescan one_in_use []) = [0]
   \<and> history (rescan one_in_use []) = [0]
   \<and> playlists (rescan one_in_use []) ''mix'' = Some [0]
   \<and> song_id (store (rescan one_in_use []) 0) = 1
   \<and> song_index (rescan one_in_use []) 1 = None"
  by code_simp

section \<open>Similarity edges\<close>

lemma neighbors_setdefault [simp]: "neighbors (setdefault g k) x = neighbors g x"
  by (simp add: neighbors_def setdefault_def split: option.splits)

lemma neighbors_upd: "neighbors (g(k \<mapsto> l)) x = (if x = k then l else neighbors g x)"
  by (simp add: neighbors_def)

lemma neighbors_add_edge:
  "set (neighbors (add_edge g a b) x)
     = set (neighbors g x) \<union> (if a \<noteq> b \<and> x = a then {b} else {})
       \<union> (if a \<noteq> b \<and> x = b then {a} else {})"
  by (auto simp: add_edge_def Let_def neighbors_upd)

lemma score_sym: "score a b = score b a"
  by (auto simp: score_def abs_minus_commute)

lemma edges_from_mono:
  "y \<in> set (neighbors g x) \<Longrightarrow> y \<in> set (neighbors (edges_from h a bs g) x)"
  by (induction bs arbitrary: g) (simp_all add: neighbors_add_edge)

lemma build_edges_mono:
  "y \<in> set (neighbors g x) \<Longrightarrow> y \<in> set (neighbors (build_edges h xs g) x)"
  by (induction xs arbitrary: g) (simp_all add: edges_from_mono)

lemma edges_from_adds:
  assumes "b \<in> set bs" and "score (h a) (h b) \<ge> 2" and "song_id (h a) \<noteq> song_id (h b)"
  shows "song_id (h b) \<in> set (neighbors (edges_from h a bs g) (song_id (h a)))
       \<and> song_id (h a) \<in> set (neighbors (edges_from h a bs g) (song_id (h b)))"
  using assms
proof (induction bs arbitrary: g)
  case Nil
  then show ?case by simp
next
  case (Cons c bs)
  show ?case
  proof (cases "c = b")
    case True
    with Cons.prems show ?thesis
      by (simp add: edges_from_mono neighbors_add_edge)
  next
    case False
    with Cons.prems have "b \<in> set bs" by simp
    from Cons.IH [OF this Cons.prems(2,3)] show ?thesis by simp
  qed
qed

lemma edges_from_sound:
  assumes "y \<in> set (neighbors (edges_from h a bs g) x)"
  shows "y \<in> set (neighbors g x)
       \<or> (\<exists>b \<in> set bs. score (h a) (h b) \<ge> 2 \<and> song_id (h a) \<noteq> song_id (h b)
            \<and> ((x = song_id (h a) \<and> y = song_id (h b)) \<or> (x = song_id (h b) \<and> y = song_id (h a))))"
  using assms
proof (induction bs arbitrary: g)
  case Nil
  then show ?case by simp
next
  case (Cons c bs)
  let ?g = "if score (h a) (h c) \<ge> 2 then add_edge g (song_id (h a)) (song_id (h c)) else g"
  from Cons.prems have "y \<in> set (neighbors (edges_from h a bs ?g) x)" by simp
  from Cons.IH [OF this] show ?case
    by (auto simp: neighbors_add_edge split: if_splits)
qed

lemma build_edges_complete:
  assumes "a \<in> set xs" and "b \<in> set xs"
    and "score (h a) (h b) \<ge> 2" and "song_id (h a) \<noteq> song_id (h b)"
  shows "song_id (h b) \<in> set (neighbors (build_edges h xs g) (song_id (h a)))"
  using assms(1,2)
proof (induction xs arbitrary: g)
  case Nil
  then show ?case by simp
next
  case (Cons c xs)
  from assms(4) have ne: "a \<noteq> b" by auto
  consider (first) "c = a" "b \<in> set xs" | (second) "c = b" "a \<in> set xs"
    | (rest) "a \<in> set xs" "b \<in> set xs"
    using Cons.prems ne by auto
  then show ?case
  proof cases
    case first
    from edges_from_adds [OF first(2) assms(3,4), of g] first(1) show ?thesis
      by (simp add: build_edges_mono)
  next
    case second
    have s: "score (h b) (h a) \<ge> 2" using assms(3) by (simp add: score_sym)
    have n: "song_id (h b) \<noteq> song_id (h a)" using assms(4) by simp
    from edges_from_adds [OF second(2) s n, of g] second(1) show ?thesis
      by (simp add: build_edges_mono)
  next
    case rest
    from Cons.IH [OF rest] show ?thesis by simp
  qed
qed

lemma build_edges_sound:
  assumes "y \<in> set (neighbors (build_edges h xs g) x)"
  shows "y \<in> set (neighbors g x)
       \<or> (\<exists>a \<in> set xs. \<exists>b \<in> set xs. score (h a) (h b) \<ge> 2
            \<and> x = song_id (h a) \<and> y = song_id (h b))"
  using assms
proof (induction xs arbitrary: g)
  case Nil
  then show ?case by simp
next
  case (Cons c xs)
  from Cons.prems have "y \<in> set (neighbors (build_edges h xs (edges_from h c xs g)) x)" by simp
  from Cons.IH [OF this] show ?case
  proof
    assume "y \<in> set (neighbors (edges_from h c xs g) x)"
    from edges_from_sound [OF this]
    consider "y \<in> set (neighbors g x)"
      | b where "b \<in> set xs" "score (h c) (h b) \<ge> 2" "x = song_id (h c)" "y = song_id (h b)"
      | b where "b \<in> set xs" "score (h c) (h b) \<ge> 2" "x = song_id (h b)" "y = song_id (h c)"
      by blast
    then show ?thesis
    proof cases
      case 1
      then show ?thesis by simp
    next
      case (2 b)
      then show ?thesis by auto
    next
      case (3 b)
      from 3(2) have "score (h b) (h c) \<ge> 2" by (simp only: score_sym [of "h b" "h c"])
      with 3 show ?thesis by auto
    qed
  next
    assume "\<exists>a \<in> set xs. \<exists>b \<in> set xs. score (h a) (h b) \<ge> 2
            \<and> x = song_id (h a) \<and> y = song_id (h b)"
    then show ?thesis by auto
  qed
qed

lemma add_nodes_no_edges:
  "(\<And>x. neighbors g x = []) \<Longrightarrow> neighbors (add_nodes h songs g) x = []"
  unfolding add_nodes_def
  by (induction songs arbitrary: g) (simp_all add: graph_add_song_def)

lemma build_edges_iff:
  assumes "distinct (map (\<lambda>r. song_id (h r)) songs)"
    and "a \<in> set songs" and "b \<in> set songs" and "a \<noteq> b"
  shows "song_id (h b) \<in> set (neighbors (build_edges h songs (add_nodes h songs Map.empty))
                                (song_id (h a)))
         \<longleftrightarrow> score (h a) (h b) \<ge> 2"
proof -
  from assms(1) have inj: "inj_on (\<lambda>r. song_id (h r)) (set songs)"
    by (simp add: distinct_map)
  with assms(2,3,4) have ne: "song_id (h a) \<noteq> song_id (h b)"
    by (auto dest: inj_onD)
  have empty: "neighbors (add_nodes h songs Map.empty) x = []" for x
    by (rule add_nodes_no_edges) (simp add: neighbors_def)
  show ?thesis
  proof
    assume "song_id (h b) \<in> set (neighbors (build_edges h songs (add_nodes h songs Map.empty))
                                (song_id (h a)))"
    from build_edges_sound [OF this]
    obtain a' b' where "a' \<in> set songs" "b' \<in> set songs" "score (h a') (h b') \<ge> 2"
      "song_id (h a) = song_id (h a')" "song_id (h b) = song_id (h b')"
      by (auto simp: empty)
    with inj assms(2,3) have "a' = a" "b' = b" by (auto dest: inj_onD)
    with \<open>score (h a') (h b') \<ge> 2\<close> show "score (h a) (h b) \<ge> 2" by simp
  next
    assume "score (h a) (h b) \<ge> 2"
    from build_edges_complete [OF assms(2,3) this ne] show
      "song_id (h b) \<in> set (neighbors (build_edges h songs (add_nodes h songs Map.empty))
                                (song_id (h a)))" .
  qed
qed

lemma load_files_graph:
  "graph (load_files st fs)
     = add_nodes (store (load_files st fs))
         [next_ref st ..< next_ref st + length (filter accepted fs)] (graph st)"
proof (induction fs arbitrary: st)
  case Nil
  show ?case by (simp add: add_nodes_def)
next
  case (Cons f fs)
  show ?case
  proof (cases "accepted f")
    case True
    have g: "graph (scan_file st f) = graph_add_song (graph st) (next_id st)"
      by (simp add: scan_file_def index_and_insert_def Let_def new_song_def)
    have "song_id (store (load_files (scan_file st f) fs) (next_ref st)) = next_id st"
      by (simp add: load_files_store_old new_song_def)
    with True Cons.IH [of "scan_file st f"] g show ?thesis
      by (simp add: upt_first add_nodes_def del: upt_Suc)
  next
    case False
    then show ?thesis by (simp add: Cons.IH)
  qed
qed

lemma rescan_graph:
  "graph (rescan st listing)
     = build_edges (store (rescan st listing)) (library (rescan st listing))
         (add_nodes (store (rescan st listing)) (library (rescan st listing)) Map.empty)"
proof -
  define st0 where "st0 = st\<lparr>library := [], genres := [], bst := Leaf, graph := Map.empty,
                   song_index := Map.empty, next_id := 1\<rparr>"
  define st1 where "st1 = load_files st0 (sort listing)"
  have r: "rescan st listing = st1\<lparr>graph := build_edges (store st1) (get_all_songs st1) (graph st1)\<rparr>"
    by (simp add: rescan_def st0_def st1_def Let_def)
  have lib: "library st1 = [next_ref st0 ..< next_ref st0 + length (filter accepted (sort listing))]"
    unfolding st1_def by (simp add: load_files_library st0_def)
  have "graph st1 = add_nodes (store st1) (library st1) Map.empty"
    unfolding lib unfolding st1_def using load_files_graph [of st0 "sort listing"]
    by (simp add: st0_def)
  then show ?thesis by (simp add: r get_all_songs_def)
qed

text \<open>
  Claim C6.  The graph that \<open>rescan\<close> leaves is the edge construction run over the
  songs of the library, from the graph that has their ids as nodes and no edge; for two
  different songs of the rescanned library, the id of the one is in the neighbour list of
  the other exactly when their score is at least 2.  The same holds for the edge
  construction over any list of songs with distinct ids, whatever their attributes.
\<close>

theorem similarity_edges:
  "graph (rescan st listing)
     = build_edges (store (rescan st listing)) (library (rescan st listing))
         (add_nodes (store (rescan st listing)) (library (rescan st listing)) Map.empty)
   \<and> (x \<in> set (library (rescan st listing)) \<and> y \<in> set (library (rescan st listing)) \<and> x \<noteq> y
        \<longrightarrow> (song_id (store (rescan st listing) y)
                \<in> set (neighbors (graph (rescan st listing)) (song_id (store (rescan st listing) x)))
             \<longleftrightarrow> score (store (rescan st listing) x) (store (rescan st listing) y) \<ge> 2))
   \<and> (distinct (map (\<lambda>r. song_id (h r)) songs) \<and> a \<in> set songs \<and> b \<in> set songs \<and> a \<noteq> b
        \<longrightarrow> (song_id (h b) \<in> set (neighbors (build_edges h songs (add_nodes h songs Map.empty))
                                     (song_id (h a)))
             \<longleftrightarrow> score (h a) (h b) \<ge> 2))"
proof -
  define R where "R = rescan st listing"
  have g: "graph R = build_edges (store R) (library R) (add_nodes (store R) (library R) Map.empty)"
    unfolding R_def by (rule rescan_graph)
  have d: "distinct (map (\<lambda>r. song_id (store R r)) (library R))"
    unfolding R_def by (rule rescan_distinct_ids)
  have "song_id (store R y) \<in> set (neighbors (graph R) (song_id (store R x)))
      \<longleftrightarrow> score (store R x) (store R y) \<ge> 2"
    if "x \<in> set (library R)" "y \<in> set (library R)" "x \<noteq> y"
    using build_edges_iff [OF d that] by (simp add: g [symmetric])
  with g build_edges_iff [of h songs a b] show ?thesis
    unfolding R_def by blast
qed

text \<open>
  Witness for C6: the scenario A (X, Rock, 2020), B (X, Pop, 2021), C (Y, Jazz, 1990), where
  the score of A and B is 4, that of A and C is 0, and the neighbours of A are exactly B;
  and a rescan over two files, whose songs score 6 and are neighbours.
\<close>

theorem similarity_edges_witness:
  "score (store scenario 0) (store scenario 1) = 4
   \<and> score (store scenario 0) (store scenario 2) = 0
   \<and> song_id (store scenario 0) = 1 \<and> song_id (store scenario 1) = 2
   \<and> song_id (store scenario 2) = 3
   \<and> 2 \<in> set (neighbors (build_edges (store scenario) [0, 1, 2]
                            (add_nodes (store scenario) [0, 1, 2] Map.empty)) 1)
   \<and> 3 \<notin> set (neighbors (build_edges (store scenario) [0, 1, 2]
                            (add_nodes (store scenario) [0, 1, 2] Map.empty)) 1)
   \<and> neighbors (build_edges (store scenario) (library scenario)
                  (add_nodes (store scenario) (library scenario) Map.empty)) 1 = [2]
   \<and> library (rescan one [''a.mp3'', ''b.mp3'']) = [1, 2]
   \<and> score (store (rescan one [''a.mp3'', ''b.mp3'']) 1)
            (store (rescan one [''a.mp3'', ''b.mp3'']) 2) = 6
   \<and> 2 \<in> set (neighbors (graph (rescan one [''a.mp3'', ''b.mp3''])) 1)"
proof -
  have d: "distinct (map (\<lambda>r. song_id (store scenario r)) [0, 1, 2])" by code_simp
  have s01: "score (store scenario 0) (store scenario 1) = 4" by code_simp
  have s02: "score (store scenario 0) (store scenario 2) = 0" by code_simp
  have i0: "song_id (store scenario 0) = 1" by code_simp
  have i1: "song_id (store scenario 1) = 2" by code_simp
  have i2: "song_id (store scenario 2) = 3" by code_simp
  have n: "neighbors (build_edges (store scenario) (library scenario)
                  (add_nodes (store scenario) (library scenario) Map.empty)) 1 = [2]"
    by code_simp
  define G where "G = build_edges (store scenario) [0, 1, 2]
                            (add_nodes (store scenario) [0, 1, 2] Map.empty)"
  note e = similarity_edges [of _ _ _ _ "store scenario" "[0, 1, 2]", THEN conjunct2,
      THEN conjunct2, rule_format, folded G_def]
  have m1: "distinct (map (\<lambda>r. song_id (store scenario r)) [0, 1, 2]) \<and> (0::nat) \<in> set [0, 1, 2]
      \<and> (1::nat) \<in> set [0, 1, 2] \<and> (0::nat) \<noteq> 1"
    using d by simp
  have m2: "distinct (map (\<lambda>r. song_id (store scenario r)) [0, 1, 2]) \<and> (0::nat) \<in> set [0, 1, 2]
      \<and> (2::nat) \<in> set [0, 1, 2] \<and> (0::nat) \<noteq> 2"
    using d by simp
  from e [OF m1] s01 i0 i1 have 1: "2 \<in> set (neighbors G 1)"
    by simp
  from e [OF m2] s02 i0 i2 have 2: "3 \<notin> set (neighbors G 1)"
    by simp
  define M where "M = rescan one [''a.mp3'', ''b.mp3'']"
  have l: "library M = [1, 2]" unfolding M_def by code_simp
  have s: "score (store M 1) (store M 2) = 6" unfolding M_def by code_simp
  have j0: "song_id (store M 1) = 1" unfolding M_def by code_simp
  have j1: "song_id (store M 2) = 2" unfolding M_def by code_simp
  have m3: "(1::nat) \<in> set (library M) \<and> (2::nat) \<in> set (library M) \<and> (1::nat) \<noteq> 2"
    by (simp add: l)
  note f = similarity_edges [of one "[''a.mp3'', ''b.mp3'']", THEN conjunct2, THEN conjunct1,
      rule_format, folded M_def]
  from f [OF m3] s j0 j1 have 3: "2 \<in> set (neighbors (graph M) 1)"
    by simp
  from s01 s02 i0 i1 i2 1 2 n l s 3 show ?thesis unfolding G_def M_def by blast
qed

section \<open>Deleting\<close>

text \<open>
  The queue and the history lose every occurrence of the deleted id; a playlist loses the
  first one.
\<close>

lemma delete_song_queue_history:
  assumes "song_index st sid = Some r"
  shows "queue (delete_song st sid) = filter (\<lambda>x. song_id (store st x) \<noteq> sid) (queue st)"
    and "history (delete_song st sid) = filter (\<lambda>x. song_id (store st x) \<noteq> sid) (history st)"
    and "playlists (delete_song st sid) name
           = map_option (remove_first (\<lambda>x. song_id (store st x) = sid)) (playlists st name)"
proof -
  have q: "fold (\<lambda>x q. if p x then queue_enqueue q x else q) xs acc = acc @ filter p xs"
    for p :: "ref \<Rightarrow> bool" and xs acc
    by (induction xs arbitrary: acc) (simp_all add: queue_enqueue_def)
  have s: "fold (\<lambda>x stk. if p x then stack_push stk x else stk) xs acc = rev (filter p xs) @ acc"
    for p :: "ref \<Rightarrow> bool" and xs acc
    by (induction xs arbitrary: acc) (simp_all add: stack_push_def)
  from assms show "queue (delete_song st sid)
      = filter (\<lambda>x. song_id (store st x) \<noteq> sid) (queue st)"
    by (simp add: delete_song_def Let_def q)
  from assms show "history (delete_song st sid)
      = filter (\<lambda>x. song_id (store st x) \<noteq> sid) (history st)"
    by (simp add: delete_song_def Let_def s rev_filter)
  from assms show "playlists (delete_song st sid) name
      = map_option (remove_first (\<lambda>x. song_id (store st x) = sid)) (playlists st name)"
    by (cases "playlists st name")
      (simp_all add: delete_song_def Let_def remove_by_id_def dll_remove_def)
qed

text \<open>
  Claim C3 at a failing input.  The song with id 1 is twice in the playlist \<open>mix\<close>;
  \<open>delete_song\<close> unlinks its first occurrence only, so after the delete the playlist still
  holds the song with id 1, which is gone from the library and from the index.
\<close>

theorem delete_song_leaves_playlist_entry:
  "song_index one_twice 1 = Some 0
   \<and> playlists one_twice ''mix'' = Some [0, 0]
   \<and> playlists (delete_song one_twice 1) ''mix'' = Some [0]
   \<and> song_id (store (delete_song one_twice 1) 0) = 1
   \<and> song_index (delete_song one_twice 1) 1 = None
   \<and> library (delete_song one_twice 1) = []"
  by code_simp

section \<open>Title search\<close>

lemma bst_keys_insert: "bst_keys (bst_insert_node t k v) = insert k (bst_keys t)"
  by (induction t) auto

lemma bst_ok_insert: "bst_ok t \<Longrightarrow> bst_ok (bst_insert_node t k v)"
  by (induction t) (auto simp: bst_keys_insert)

lemma bst_search_absent: "bst_ok t \<Longrightarrow> k \<notin> bst_keys t \<Longrightarrow> bst_search_node t k = None"
  by (induction t) auto

lemma bst_search_insert:
  "bst_ok t \<Longrightarrow>
   bst_search_node (bst_insert_node t k v) k' = (if k' = k then Some v else bst_search_node t k')"
  by (induction t) auto

lemma bst_ok_fold:
  "bst_ok t \<Longrightarrow> bst_ok (fold (\<lambda>r t. bst_insert t (key r) r) songs t)"
  by (induction songs arbitrary: t) (simp_all add: bst_insert_def bst_ok_insert)

lemma bst_search_fold:
  assumes "bst_ok t"
    and "\<forall>x \<in> set songs. x \<noteq> r \<longrightarrow> lower (key x) \<noteq> K"
    and "r \<in> set songs \<longrightarrow> lower (key r) = K"
    and "r \<in> set songs \<or> bst_search_node t K = Some r"
  shows "bst_search_node (fold (\<lambda>r t. bst_insert t (key r) r) songs t) K = Some r"
  using assms
proof (induction songs arbitrary: t)
  case Nil
  then show ?case by simp
next
  case (Cons x xs)
  let ?t = "bst_insert t (key x) x"
  have ok: "bst_ok ?t" using Cons.prems(1) by (simp add: bst_insert_def bst_ok_insert)
  have rest: "\<forall>y \<in> set xs. y \<noteq> r \<longrightarrow> lower (key y) \<noteq> K" using Cons.prems(2) by simp
  have keyr: "r \<in> set xs \<longrightarrow> lower (key r) = K" using Cons.prems(3) by simp
  have "r \<in> set xs \<or> bst_search_node ?t K = Some r"
  proof (cases "x = r")
    case True
    with Cons.prems(3) have "lower (key x) = K" by simp
    with True Cons.prems(1) show ?thesis
      by (simp add: bst_insert_def bst_search_insert)
  next
    case False
    with Cons.prems(2) have "lower (key x) \<noteq> K" by simp
    with False Cons.prems(1,4) show ?thesis
      by (auto simp: bst_insert_def bst_search_insert)
  qed
  from Cons.IH [OF ok rest keyr this] show ?case by simp
qed

lemma rebuild_bst_search:
  assumes "r \<in> set songs"
    and "\<forall>x \<in> set songs. x \<noteq> r \<longrightarrow> lower (title_key (h x)) \<noteq> lower (title_key (h r))"
  shows "bst_search_node (rebuild_bst h songs) (lower (title_key (h r))) = Some r"
  unfolding rebuild_bst_def
  by (rule bst_search_fold [where key = "\<lambda>r. title_key (h r)"]) (use assms in simp_all)

lemma load_files_bst:
  "bst (load_files st fs)
     = fold (\<lambda>r t. bst_insert t (title_key (store (load_files st fs) r)) r)
         [next_ref st ..< next_ref st + length (filter accepted fs)] (bst st)"
proof (induction fs arbitrary: st)
  case Nil
  show ?case by simp
next
  case (Cons f fs)
  show ?case
  proof (cases "accepted f")
    case True
    have b: "bst (scan_file st f)
        = bst_insert (bst st) (title_key (new_song (next_id st) f)) (next_ref st)"
      by (simp add: scan_file_def index_and_insert_def Let_def)
    have "store (load_files (scan_file st f) fs) (next_ref st) = new_song (next_id st) f"
      by (simp add: load_files_store_old)
    with True Cons.IH [of "scan_file st f"] b show ?thesis
      by (simp add: upt_first del: upt_Suc)
  next
    case False
    then show ?thesis by (simp add: Cons.IH)
  qed
qed

lemma rescan_bst:
  "bst (rescan st listing)
     = rebuild_bst (store (rescan st listing)) (library (rescan st listing))"
proof -
  define st0 where "st0 = st\<lparr>library := [], genres := [], bst := Leaf, graph := Map.empty,
                   song_index := Map.empty, next_id := 1\<rparr>"
  define st1 where "st1 = load_files st0 (sort listing)"
  have r: "rescan st listing = st1\<lparr>graph := build_edges (store st1) (get_all_songs st1) (graph st1)\<rparr>"
    by (simp add: rescan_def st0_def st1_def Let_def)
  have lib: "library st1 = [next_ref st0 ..< next_ref st0 + length (filter accepted (sort listing))]"
    unfolding st1_def by (simp add: load_files_library st0_def)
  have "bst st1 = rebuild_bst (store st1) (library st1)"
    unfolding lib rebuild_bst_def unfolding st1_def using load_files_bst [of st0 "sort listing"]
    by (simp add: st0_def)
  then show ?thesis by (simp add: r)
qed

text \<open>
  Claim C8, as the code has it.  The tree that \<open>rescan\<close> leaves is the tree built by
  inserting the songs of the library in order (as \<open>update_song\<close> and \<open>delete_song\<close>
  rebuild it).  In a manager whose tree is built from its library, for a song with a
  non-empty title whose lowercased title differs from the tree key of every other song of
  the library, \<open>search_by_title\<close> of that title returns exactly that song.  For every
  query, an exact hit is returned alone, and the partial match is the result only when the
  exact lookup misses.
\<close>

theorem search_by_title_round_trip:
  "bst (rescan st0 listing)
     = rebuild_bst (store (rescan st0 listing)) (library (rescan st0 listing))
   \<and> (bst st = rebuild_bst (store st) (library st)
        \<and> r \<in> set (library st)
        \<and> title (store st r) \<noteq> []
        \<and> (\<forall>x \<in> set (library st).
              x \<noteq> r \<longrightarrow> lower (title_key (store st x)) \<noteq> lower (title (store st r)))
      \<longrightarrow> search_by_title st (title (store st r)) = [r])
   \<and> (\<forall>e. bst_search (bst st) query = Some e \<longrightarrow> search_by_title st query = [e])
   \<and> (bst_search (bst st) query = None
        \<longrightarrow> search_by_title st query = partial_match (bst st) query)"
proof (intro conjI impI allI)
  show "bst (rescan st0 listing)
     = rebuild_bst (store (rescan st0 listing)) (library (rescan st0 listing))"
    by (rule rescan_bst)
next
  assume a: "bst st = rebuild_bst (store st) (library st)
        \<and> r \<in> set (library st)
        \<and> title (store st r) \<noteq> []
        \<and> (\<forall>x \<in> set (library st).
              x \<noteq> r \<longrightarrow> lower (title_key (store st x)) \<noteq> lower (title (store st r)))"
  then have k: "title_key (store st r) = title (store st r)" by (simp add: title_key_def)
  from a have "bst_search_node (rebuild_bst (store st) (library st))
      (lower (title_key (store st r))) = Some r"
    by (intro rebuild_bst_search) (simp_all add: k)
  with a k show "search_by_title st (title (store st r)) = [r]"
    by (simp add: search_by_title_def bst_search_def)
next
  fix e
  assume "bst_search (bst st) query = Some e"
  then show "search_by_title st query = [e]"
    by (simp add: search_by_title_def)
next
  assume "bst_search (bst st) query = None"
  then show "search_by_title st query = partial_match (bst st) query"
    by (simp add: search_by_title_def)
qed

text \<open>
  Witness for C8: in the library of three files the title \<open>b\<close> finds its song, the query
  \<open>B\<close> is an exact hit, and the empty query misses and falls back to the partial match.
\<close>

theorem search_by_title_round_trip_witness:
  "library abc = [0, 1, 2]
   \<and> title (store abc 1) = ''b''
   \<and> search_by_title abc ''b'' = [1]
   \<and> bst_search (bst abc) ''B'' = Some 1
   \<and> search_by_title abc ''B'' = [1]
   \<and> bst_search (bst abc) '''' = None
   \<and> search_by_title abc '''' = [0, 1, 2]"
proof -
  have l: "library abc = [0, 1, 2]" by code_simp
  have t: "title (store abc 1) = ''b''" by code_simp
  have b: "bst abc = rebuild_bst (store abc) (library abc)" by code_simp
  have u: "\<forall>x \<in> set (library abc).
              x \<noteq> 1 \<longrightarrow> lower (title_key (store abc x)) \<noteq> lower (title (store abc 1))"
    by code_simp
  have m: "(1::nat) \<in> set (library abc)" by (simp add: l)
  have ne: "title (store abc 1) \<noteq> []" unfolding t by simp
  have hit: "bst_search (bst abc) ''B'' = Some 1" by code_simp
  have miss: "bst_search (bst abc) '''' = None" by code_simp
  have pm: "partial_match (bst abc) '''' = [0, 1, 2]" by code_simp
  from search_by_title_round_trip [of abc "[]" abc 1, THEN conjunct2, THEN conjunct1,
      rule_format] b m ne u
  have "search_by_title abc (title (store abc 1)) = [1]" by blast
  then have 1: "search_by_title abc ''b'' = [1]" unfolding t .
  from search_by_title_round_trip [of abc "[]" abc _ "''B''", THEN conjunct2, THEN conjunct2,
      THEN conjunct1, rule_format, OF hit]
  have 2: "search_by_title abc ''B'' = [1]" .
  from search_by_title_round_trip [of abc "[]" abc _ "''''", THEN conjunct2, THEN conjunct2,
      THEN conjunct2, rule_format, OF miss] pm
  have 3: "search_by_title abc '''' = [0, 1, 2]" by simp
  from l t 1 2 3 hit miss show ?thesis by blast
qed

text \<open>
  Counterexample to C8 as stated: the titles \<open>Hello\<close> and \<open>hello\<close> are different, so
  each is unique among the inserted titles, but they share one tree key; the search for
  \<open>Hello\<close> returns the song titled \<open>hello\<close>, which was inserted last.
\<close>

theorem search_by_title_counterexample:
  "library hello = [0, 1]
   \<and> title (store hello 0) = ''Hello''
   \<and> title (store hello 1) = ''hello''
   \<and> search_by_title hello ''Hello'' = [1]"
  by code_simp

section \<open>Genre update\<close>

lemma find_genre_lower: "lower g' = lower g \<Longrightarrow> find_genre gs g' = find_genre gs g"
  by (induction gs) auto

lemma find_genre_set_first_song:
  "find_genre (set_first_song gs g f) g'
     = (if lower g' = lower g then map_option (\<lambda>(n, l). (n, f l)) (find_genre gs g')
        else find_genre gs g')"
  by (induction gs) auto

lemma map_fst_set_first_song: "map fst (set_first_song gs g f) = map fst gs"
  by (induction gs) auto

lemma get_songs_add:
  "get_songs (genre_add_song gs g r) g'
     = (if lower g' = lower g then r # get_songs gs g' else get_songs gs g')"
  by (auto simp: get_songs_def genre_add_song_def find_genre_set_first_song
      dest: find_genre_lower [of g' g gs] split: option.splits)

lemma get_songs_remove:
  "get_songs (genre_remove_song gs g p) g'
     = (if lower g' = lower g then remove_first p (get_songs gs g') else get_songs gs g')"
  by (auto simp: get_songs_def genre_remove_song_def find_genre_set_first_song
      dest: find_genre_lower [of g' g gs] split: option.splits)

lemma get_genres_remove: "get_genres (genre_remove_song gs g p) = get_genres gs"
  by (simp add: get_genres_def genre_remove_song_def map_fst_set_first_song
      split: option.splits)

lemma get_genres_add:
  "find_genre gs g \<noteq> None \<Longrightarrow> get_genres (genre_add_song gs g r) = get_genres gs"
  by (auto simp: get_genres_def genre_add_song_def map_fst_set_first_song)

lemma find_genre_remove:
  "find_genre (genre_remove_song gs g p) g' = None \<longleftrightarrow> find_genre gs g' = None"
  by (auto simp: genre_remove_song_def find_genre_set_first_song split: option.splits)

lemma remove_first_subset: "set (remove_first p xs) \<subseteq> set xs"
  by (induction xs) auto

lemma remove_first_distinct:
  "distinct (map f xs) \<Longrightarrow> \<forall>x \<in> set (remove_first (\<lambda>x. f x = v) xs). f x \<noteq> v"
  by (induction xs) (auto simp: image_iff)

text \<open>
  Claim C7, as the code has it.  For a song of the index whose genre listing has no second
  song with its id, after \<open>update_song\<close> with a genre \<open>G\<close> different from its genre:
  the song is in the listing of \<open>G\<close>; when \<open>G\<close> differs from the old genre in more than
  letter case, the song (and any song with its id) is not in the listing of the old genre;
  and when a genre entry matching \<open>G\<close> existed, \<open>get_all_genres\<close> is unchanged.
\<close>

theorem update_song_genre:
  assumes "song_index st sid = Some r"
    and "song_id (store st r) = sid"
    and "G \<noteq> genre (store st r)"
    and "distinct (map (\<lambda>x. song_id (store st x))
                       (get_songs_by_genre st (genre (store st r))))"
  shows "r \<in> set (get_songs_by_genre (update_song st sid (genre_only G)) G)
     \<and> (lower G \<noteq> lower (genre (store st r)) \<longrightarrow>
          r \<notin> set (get_songs_by_genre (update_song st sid (genre_only G)) (genre (store st r)))
          \<and> (\<forall>x \<in> set (get_songs_by_genre (update_song st sid (genre_only G))
                          (genre (store st r))).
                song_id (store (update_song st sid (genre_only G)) x) \<noteq> sid))
     \<and> (find_genre (genres st) G \<noteq> None \<longrightarrow>
          get_all_genres (update_song st sid (genre_only G)) = get_all_genres st)"
proof -
  define old where "old = genre (store st r)"
  define h where "h = (store st)(r := (store st r)\<lparr>genre := G\<rparr>)"
  have set: "setattrs (genre_only G) (store st r) = (store st r)\<lparr>genre := G\<rparr>"
    by (simp add: setattrs_def genre_only_def no_fields_def)
  have ids: "song_id (h x) = song_id (store st x)" for x
    by (simp add: h_def)
  have pred: "(\<lambda>x. song_id (h x) = sid) = (\<lambda>x. song_id (store st x) = sid)"
    by (simp add: ids)
  have hr: "genre (h r) = G" "title (h r) = title (store st r)"
    by (simp_all add: h_def)
  have upd: "update_song st sid (genre_only G)
      = st\<lparr>store := h,
           genres := genre_add_song
             (genre_remove_song (genres st) old (\<lambda>x. song_id (store st x) = sid)) G r\<rparr>"
    using assms(1,3)
    by (simp add: update_song_def Let_def set h_def [symmetric] old_def [symmetric] pred hr)
  have in_new: "r \<in> set (get_songs_by_genre (update_song st sid (genre_only G)) G)"
    by (simp add: upd get_songs_by_genre_def get_songs_add)
  have d: "distinct (map (\<lambda>x. song_id (store st x)) (get_songs (genres st) old))"
    using assms(4) by (simp add: get_songs_by_genre_def old_def)
  have gone: "\<forall>x \<in> set (get_songs_by_genre (update_song st sid (genre_only G)) old).
      song_id (store (update_song st sid (genre_only G)) x) \<noteq> sid"
    if "lower G \<noteq> lower old"
    using that remove_first_distinct [OF d, of sid]
    by (simp add: upd get_songs_by_genre_def get_songs_add get_songs_remove ids)
  have r_gone: "r \<notin> set (get_songs_by_genre (update_song st sid (genre_only G)) old)"
    if "lower G \<noteq> lower old"
  proof
    assume "r \<in> set (get_songs_by_genre (update_song st sid (genre_only G)) old)"
    with gone [OF that] have "song_id (store (update_song st sid (genre_only G)) r) \<noteq> sid"
      by blast
    with assms(2) show False by (simp add: upd ids)
  qed
  have same: "get_all_genres (update_song st sid (genre_only G)) = get_all_genres st"
    if "find_genre (genres st) G \<noteq> None"
    using that
    by (simp add: upd get_all_genres_def get_genres_add get_genres_remove find_genre_remove)
  from in_new gone r_gone same show ?thesis
    unfolding old_def by blast
qed

text \<open>
  Witness for C7: the second song of the three-file library moves from \<open>Unknown\<close> to the
  new genre \<open>Rock\<close>; then the first song moves to \<open>rock\<close>, an entry that exists, and
  the genre names stay the same.
\<close>

theorem update_song_genre_witness:
  "get_songs_by_genre abc ''Unknown'' = [2, 1, 0]
   \<and> get_songs_by_genre (update_song abc 2 (genre_only ''Rock'')) ''Rock'' = [1]
   \<and> get_songs_by_genre (update_song abc 2 (genre_only ''Rock'')) ''Unknown'' = [2, 0]
   \<and> 1 \<notin> set (get_songs_by_genre (update_song abc 2 (genre_only ''Rock'')) ''Unknown'')
   \<and> get_all_genres (update_song (update_song abc 2 (genre_only ''Rock'')) 1 (genre_only ''rock''))
       = get_all_genres (update_song abc 2 (genre_only ''Rock''))"
proof -
  define rock where "rock = update_song abc 2 (genre_only ''Rock'')"
  have i: "song_index abc 2 = Some 1" by code_simp
  have j: "song_id (store abc 1) = 2" by code_simp
  have g: "genre (store abc 1) = ''Unknown''" by code_simp
  have d: "distinct (map (\<lambda>x. song_id (store abc x))
                       (get_songs_by_genre abc (genre (store abc 1))))" by code_simp
  have n: "''Rock'' \<noteq> genre (store abc 1)" unfolding g by simp
  have l: "lower ''Rock'' \<noteq> lower (genre (store abc 1))" by code_simp
  have a: "get_songs_by_genre abc ''Unknown'' = [2, 1, 0]" by code_simp
  have b: "get_songs_by_genre (update_song abc 2 (genre_only ''Rock'')) ''Rock'' = [1]"
    by code_simp
  have c: "get_songs_by_genre (update_song abc 2 (genre_only ''Rock'')) ''Unknown'' = [2, 0]"
    by code_simp
  note u = update_song_genre [OF i j n d]
  from u l have "1 \<notin> set (get_songs_by_genre (update_song abc 2 (genre_only ''Rock''))
      (genre (store abc 1)))" by blast
  then have e: "1 \<notin> set (get_songs_by_genre (update_song abc 2 (genre_only ''Rock'')) ''Unknown'')"
    unfolding g .
  have i2: "song_index rock 1 = Some 0" unfolding rock_def by code_simp
  have j2: "song_id (store rock 0) = 1" unfolding rock_def by code_simp
  have n2: "''rock'' \<noteq> genre (store rock 0)" unfolding rock_def by code_simp
  have d2: "distinct (map (\<lambda>x. song_id (store rock x))
                       (get_songs_by_genre rock (genre (store rock 0))))"
    unfolding rock_def by code_simp
  have f2: "find_genre (genres rock) ''rock'' \<noteq> None" unfolding rock_def by code_simp
  from update_song_genre [OF i2 j2 n2 d2] f2
  have "get_all_genres (update_song rock 1 (genre_only ''rock'')) = get_all_genres rock"
    by blast
  with a b c e show ?thesis unfolding rock_def by blast
qed

text \<open>
  Counterexample to C7 as stated: \<open>unknown\<close> is distinct from the song's genre
  \<open>Unknown\<close>, yet after the update the song is still in the listing of \<open>Unknown\<close>: both
  names match the same genre entry.
\<close>

theorem update_song_genre_counterexample:
  "song_index one 1 = Some 0
   \<and> genre (store one 0) = ''Unknown''
   \<and> ''unknown'' \<noteq> ''Unknown''
   \<and> get_songs_by_genre (update_song one 1 (genre_only ''unknown'')) ''Unknown'' = [0]"
  by code_simp

end
